theory Spec2Isabelle
  imports Complex_Main
begin

section \<open>The phishing detector of ml-detector.js\<close>

text \<open>
  A shallow embedding of the class \<open>PhishingMLDetector\<close>: the heuristic scorer
  \<open>getEnhancedFallbackScore\<close>, the explanation generator \<open>generateReasons\<close>, the
  response normaliser \<open>parseMLResult\<close>, the remote client \<open>getMLPrediction\<close> with its
  failover over \<open>this.models\<close>, and the entry point \<open>analyzeEmail\<close>.

  Conventions of the model.
  \<^item> Strings are ASCII text: a \<open>char\<close> is one character, \<open>toLowerCase\<close> maps
    \<open>A\<close>..\<open>Z\<close> to \<open>a\<close>..\<open>z\<close> and the line terminators are LF and CR.
  \<^item> JavaScript numbers are real numbers plus \<open>NaN\<close>; rounding errors of doubles and
    the infinities are not modelled.
  \<^item> The strings the program shows to the user contain pictographs; they are modelled as
    the constructors of the datatypes \<open>reason\<close> and \<open>confidenceText\<close>, one constructor per
    distinct source string.
  \<^item> A thrown exception is the \<open>Inl\<close> branch of a sum type.
\<close>

subsection \<open>Strings\<close>

definition toLower :: "char \<Rightarrow> char" where
  "toLower c =
     (case map_of (zip ''ABCDEFGHIJKLMNOPQRSTUVWXYZ'' ''abcdefghijklmnopqrstuvwxyz'') c of
        Some l \<Rightarrow> l
      | None \<Rightarrow> c)"

definition toLowerCase :: "string \<Rightarrow> string" where
  "toLowerCase s = map toLower s"

definition startsWith :: "string \<Rightarrow> string \<Rightarrow> bool" where
  "startsWith s p = (take (length p) s = p)"

text \<open>\<open>s.includes(p)\<close>: \<open>p\<close> occurs in \<open>s\<close> as a contiguous substring.\<close>

fun str_includes :: "string \<Rightarrow> string \<Rightarrow> bool" where
  "str_includes [] p = (p = [])"
| "str_includes (c # cs) p = (startsWith (c # cs) p \<or> str_includes cs p)"

text \<open>\<open>s.split(sep)\<close> for a one-character separator; \<open>''''.split(sep)\<close> is \<open>['''']\<close>.\<close>

fun str_split :: "char \<Rightarrow> string \<Rightarrow> string list" where
  "str_split sep [] = [[]]"
| "str_split sep (c # cs) =
     (if c = sep then [] # str_split sep cs
      else (case str_split sep cs of
              [] \<Rightarrow> [[c]]
            | x # xs \<Rightarrow> (c # x) # xs))"

subsection \<open>Regular expressions\<close>

text \<open>
  The fragment of JavaScript regular expressions the source uses: literal text,
  \<open>.*\<close> (any run of characters other than line terminators), \<open>[...]+\<close> (a non-empty run
  of characters of a class), concatenation and alternation.
\<close>

datatype rx =
    Lit string
  | AnyStar
  | OneOrMore "char list"
  | Seq rx rx
  | Alt rx rx

definition lineTerminator :: "char \<Rightarrow> bool" where
  "lineTerminator c = (c = CHR 0x0A \<or> c = CHR 0x0D)"

fun star_rests :: "(char \<Rightarrow> bool) \<Rightarrow> string \<Rightarrow> string list" where
  "star_rests P [] = [[]]"
| "star_rests P (c # cs) = (c # cs) # (if P c then star_rests P cs else [])"

fun plus_rests :: "(char \<Rightarrow> bool) \<Rightarrow> string \<Rightarrow> string list" where
  "plus_rests P [] = []"
| "plus_rests P (c # cs) = (if P c then star_rests P cs else [])"

text \<open>
  \<open>rx_rests r s\<close> lists what is left of \<open>s\<close> after each way of matching \<open>r\<close> at the
  start of \<open>s\<close>.
\<close>

fun rx_rests :: "rx \<Rightarrow> string \<Rightarrow> string list" where
  "rx_rests (Lit p) s = (if startsWith s p then [drop (length p) s] else [])"
| "rx_rests AnyStar s = star_rests (\<lambda>c. \<not> lineTerminator c) s"
| "rx_rests (OneOrMore cs) s = plus_rests (\<lambda>c. c \<in> set cs) s"
| "rx_rests (Seq a b) s = concat (map (rx_rests b) (rx_rests a s))"
| "rx_rests (Alt a b) s = rx_rests a s @ rx_rests b s"

text \<open>\<open>s.match(r)\<close> is truthy when \<open>r\<close> matches at some position of \<open>s\<close>.\<close>

fun rx_match :: "rx \<Rightarrow> string \<Rightarrow> bool" where
  "rx_match r [] = (rx_rests r [] \<noteq> [])"
| "rx_match r (c # cs) = (rx_rests r (c # cs) \<noteq> [] \<or> rx_match r cs)"

text \<open>
  With the flag \<open>i\<close>, and a pattern written in lower case, the match is that of the
  pattern on the lower-cased text.
\<close>

definition rx_match_i :: "rx \<Rightarrow> string \<Rightarrow> bool" where
  "rx_match_i r s = rx_match r (toLowerCase s)"

fun alts :: "string list \<Rightarrow> rx" where
  "alts [] = Lit []"
| "alts [p] = Lit p"
| "alts (p # ps) = Alt (Lit p) (alts ps)"

subsection \<open>The email\<close>

text \<open>
  \<open>emailData\<close> comes from the caller. Each of its three properties may be absent
  (\<open>None\<close>: the destructuring default \<open>''''\<close> applies), a string, \<open>null\<close>, or a value of
  another type, which the program can only observe through its string conversion in a
  template literal (carried by \<open>NonString\<close>) and through its lack of string methods.
  An \<open>emailData\<close> that is \<open>null\<close> or \<open>undefined\<close> is \<open>None\<close> of \<open>emailData option\<close>.
\<close>

datatype jsvalue = Str string | Null | NonString string

record emailData =
  sender :: "jsvalue option"
  subject :: "jsvalue option"
  snippet :: "jsvalue option"

text \<open>
  The exceptions of the program: a TypeError of the runtime, a rejected \<open>fetch\<close>, a
  rejected \<open>response.json()\<close>, \<open>Error('API ' + status)\<close>,
  \<open>Error('All models deprecated')\<close> and \<open>Error('All AI models unavailable. ...')\<close>.
\<close>

datatype error =
    TypeError
  | NetworkError
  | JsonError
  | ApiError nat
  | AllModelsDeprecated
  | AllModelsUnavailable

definition orDefault :: "jsvalue option \<Rightarrow> jsvalue" where
  "orDefault v = (case v of None \<Rightarrow> Str [] | Some x \<Rightarrow> x)"

text \<open>The conversion of a value inside a template literal.\<close>

fun toText :: "jsvalue \<Rightarrow> string" where
  "toText (Str s) = s"
| "toText Null = ''null''"
| "toText (NonString s) = s"

definition normalizedText :: "emailData \<Rightarrow> string" where
  "normalizedText d =
     toLowerCase (toText (orDefault (sender d)) @ '' '' @ toText (orDefault (subject d))
                  @ '' '' @ toText (orDefault (snippet d)))"

subsection \<open>The heuristic scorer\<close>

definition rx_account :: rx where
  "rx_account =
     Alt (Lit ''verify your account'')
    (Alt (Seq (Lit ''account'') (Seq AnyStar (Lit ''suspended'')))
    (Alt (Lit ''confirm your identity'') (Lit ''unusual activity'')))"

definition rx_urgent :: rx where
  "rx_urgent =
     Alt (Lit ''urgent action'')
    (Alt (Seq (Lit ''click'') (Seq AnyStar (Lit ''immediately'')))
    (Alt (Lit ''suspended unless'') (Lit ''will be closed'')))"

definition rx_prize :: rx where
  "rx_prize = alts [''won'', ''prize'', ''lottery'', ''million'', ''winner'']"

definition rx_payment :: rx where
  "rx_payment =
     Alt (Seq (Lit ''$'') (OneOrMore ''0123456789,''))
         (Seq (Lit ''payment'') (Seq AnyStar (alts [''failed'', ''required'', ''update''])))"

definition rx_threat :: rx where
  "rx_threat =
     Alt (Seq (Lit ''will be '') (alts [''closed'', ''terminated'', ''deleted'']))
    (Alt (Lit ''lose access'') (Seq (Lit ''expire'') (Seq AnyStar (Lit ''soon''))))"

definition rx_sensitive :: rx where
  "rx_sensitive =
     alts [''social security'', ''ssn'', ''password'', ''credit card'', ''bank account'']"

definition rx_domain :: rx where
  "rx_domain = alts [''.tk'', ''.ml'', ''.ga'', ''.xyz'', ''tempmail'', ''throwaway'']"

definition rx_shortener :: rx where
  "rx_shortener = alts [''bit.ly'', ''tinyurl'', ''goo.gl'']"

definition rx_greeting :: rx where
  "rx_greeting = Seq (Lit ''dear '') (alts [''customer'', ''user'', ''member''])"

definition rx_grammar :: rx where
  "rx_grammar = alts [''kindly'', ''needful'', ''revert back'']"

definition brands :: "string list" where
  "brands = [''paypal'', ''amazon'', ''apple'', ''microsoft'', ''google'', ''bank'']"

text \<open>
  \<open>sender.split('@')[1] || ''''\<close>: the second piece of the sender, the empty string when
  there is none.
\<close>

definition domainOf :: "string \<Rightarrow> string" where
  "domainOf s = (case str_split CHR ''@'' s of x # d # rest \<Rightarrow> d | _ \<Rightarrow> [])"

text \<open>
  The brand block of \<open>getEnhancedFallbackScore\<close>: \<open>brands.find(b => text.includes(b))\<close>,
  then the test \<open>matchedBrand && sender\<close> and the test on the domain.
\<close>

definition brandImpersonation :: "string \<Rightarrow> string \<Rightarrow> bool" where
  "brandImpersonation text s =
     (case find (\<lambda>b. str_includes text b) brands of
        None \<Rightarrow> False
      | Some matchedBrand \<Rightarrow> s \<noteq> [] \<and> \<not> str_includes (domainOf s) matchedBrand)"

text \<open>
  The rules run in the source's order. \<open>sender.match\<close> throws a TypeError when the
  sender is not a string; nothing before it can throw.
\<close>

definition getEnhancedFallbackScore :: "emailData \<Rightarrow> error + int" where
  "getEnhancedFallbackScore d =
     (let text = normalizedText d;
          score0 = 0;
          score1 = (if rx_match rx_account text then score0 + 40 else score0);
          score2 = (if rx_match rx_urgent text then score1 + 35 else score1);
          score3 = (if rx_match rx_prize text then score2 + 35 else score2);
          score4 = (if rx_match rx_payment text then score3 + 30 else score3);
          score5 = (if rx_match rx_threat text then score4 + 30 else score4);
          score6 = (if rx_match rx_sensitive text then score5 + 35 else score5)
      in case orDefault (sender d) of
           Str s \<Rightarrow>
             (let score7 = (if rx_match_i rx_domain s then score6 + 40 else score6);
                  score8 = (if rx_match rx_shortener text then score7 + 20 else score7);
                  score9 = (if rx_match rx_greeting text then score8 + 15 else score8);
                  score10 = (if rx_match rx_grammar text then score9 + 10 else score9);
                  score11 = (if brandImpersonation text s then score10 + 30 else score10)
              in Inr (min score11 100))
         | _ \<Rightarrow> Inl TypeError)"

subsection \<open>The explanation generator\<close>

text \<open>
  One constructor per reason string of the source: the four mode indicators first, then
  the eight content signals, the fixed "No red flags" reason and the reason of the error
  result.
\<close>

datatype reason =
    AI_detected_phishing
  | AI_flagged_suspicious
  | AI_verified_safe
  | Pattern_detection
  | Verification_request
  | Account_suspension_claim
  | Urgency_tactics
  | Prize_scam
  | Money_mentioned
  | Click_bait
  | Suspicious_domain
  | Sensitive_info_request
  | No_red_flags
  | Analysis_error

datatype jsnum = Num real | NaN

text \<open>\<open>x >= c\<close> is false when \<open>x\<close> is \<open>NaN\<close>.\<close>

fun ge :: "jsnum \<Rightarrow> real \<Rightarrow> bool" where
  "ge (Num x) c = (c \<le> x)"
| "ge NaN c = False"

definition modeIndicator :: "jsnum \<Rightarrow> bool \<Rightarrow> reason" where
  "modeIndicator score usedML =
     (if usedML then
        (if ge score 65 then AI_detected_phishing
         else if ge score 35 then AI_flagged_suspicious
         else AI_verified_safe)
      else Pattern_detection)"

definition push_if :: "bool \<Rightarrow> 'a \<Rightarrow> 'a list \<Rightarrow> 'a list" where
  "push_if c x xs = (if c then xs @ [x] else xs)"

definition generateReasons :: "jsnum \<Rightarrow> emailData \<Rightarrow> bool \<Rightarrow> error + reason list" where
  "generateReasons score d usedML =
     (let text = normalizedText d;
          r0 = [modeIndicator score usedML];
          r1 = push_if (rx_match (alts [''verify'', ''confirm'']) text) Verification_request r0;
          r2 = push_if (rx_match (alts [''suspended'', ''locked'']) text) Account_suspension_claim r1;
          r3 = push_if (rx_match (alts [''urgent'', ''immediately'']) text) Urgency_tactics r2;
          r4 = push_if (rx_match (alts [''won'', ''prize'']) text) Prize_scam r3;
          r5 = push_if (rx_match (Lit ''$'') text) Money_mentioned r4;
          r6 = push_if (rx_match (Lit ''click here'') text) Click_bait r5
      in case orDefault (sender d) of
           Str s \<Rightarrow>
             (let r7 = push_if (rx_match_i (alts [''.tk'', ''.ml'', ''tempmail'']) s)
                         Suspicious_domain r6;
                  r8 = push_if (rx_match_i (alts [''password'', ''credit card'']) text)
                         Sensitive_info_request r7;
                  r9 = (if length r8 \<le> 1 then r8 @ [No_red_flags] else r8)
              in Inr (take 5 r9))
         | _ \<Rightarrow> Inl TypeError)"

subsection \<open>Numbers\<close>

fun jmul :: "jsnum \<Rightarrow> jsnum \<Rightarrow> jsnum" where
  "jmul (Num x) (Num y) = Num (x * y)"
| "jmul _ _ = NaN"

fun jsub :: "jsnum \<Rightarrow> jsnum \<Rightarrow> jsnum" where
  "jsub (Num x) (Num y) = Num (x - y)"
| "jsub _ _ = NaN"

text \<open>\<open>Math.round\<close> rounds to the nearest integer, halves upwards.\<close>

fun jround :: "jsnum \<Rightarrow> jsnum" where
  "jround (Num x) = Num (of_int \<lfloor>x + 1 / 2\<rfloor>)"
| "jround NaN = NaN"

subsection \<open>The remote response and its normalisation\<close>

text \<open>
  The value of \<open>response.json()\<close>. An object is the list of its properties; the keys
  of a parsed object are distinct.
\<close>

datatype json =
    JNull
  | JBool bool
  | JNum real
  | JStr string
  | JArr "json list"
  | JObj "(string \<times> json) list"

text \<open>
  Reading a property of a value that is not \<open>null\<close>: only an object has the properties
  \<open>label\<close> and \<open>score\<close>; on any other value the result is \<open>undefined\<close> (\<open>None\<close>).
\<close>

fun getProp :: "json \<Rightarrow> string \<Rightarrow> json option" where
  "getProp (JObj kvs) k = map_of kvs k"
| "getProp _ k = None"

fun truthy :: "json \<Rightarrow> bool" where
  "truthy JNull = False"
| "truthy (JBool b) = b"
| "truthy (JNum x) = (x \<noteq> 0)"
| "truthy (JStr s) = (s \<noteq> [])"
| "truthy (JArr xs) = True"
| "truthy (JObj kvs) = True"

text \<open>
  The outside of the class: the network, which answers the \<open>k\<close>-th \<open>fetch\<close> of the
  session, and the runtime's conversion to a number of a value that is neither a number,
  a boolean, \<open>null\<close> nor \<open>undefined\<close> (a string, an array or an object).
\<close>

record request =
  req_url :: string
  authorization :: string
  inputs :: string
  wait_for_model :: bool
  use_cache :: "bool option"

text \<open>
  A \<open>fetch\<close> is rejected, or resolves to a response with a status and a body; the body
  is \<open>None\<close> when \<open>response.json()\<close> rejects.
\<close>

datatype outcome = Rejected | Response nat "json option"

record host =
  fetch :: "nat \<Rightarrow> request \<Rightarrow> outcome"
  toNumber :: "json \<Rightarrow> jsnum"

definition ok :: "nat \<Rightarrow> bool" where
  "ok status = (200 \<le> status \<and> status \<le> 299)"

fun toNum :: "host \<Rightarrow> json option \<Rightarrow> jsnum" where
  "toNum env None = NaN"
| "toNum env (Some (JNum x)) = Num x"
| "toNum env (Some JNull) = Num 0"
| "toNum env (Some (JBool b)) = Num (if b then 1 else 0)"
| "toNum env (Some v) = toNumber env v"

definition isSpamLabel :: "string \<Rightarrow> bool" where
  "isSpamLabel l =
     (str_includes (toLowerCase l) ''spam'' \<or> str_includes (toLowerCase l) ''phishing''
      \<or> l = ''LABEL_1'' \<or> l = ''1'')"

definition isHamLabel :: "string \<Rightarrow> bool" where
  "isHamLabel l =
     (str_includes (toLowerCase l) ''ham'' \<or> str_includes (toLowerCase l) ''safe''
      \<or> l = ''LABEL_0'' \<or> l = ''0'')"

text \<open>
  The callback \<open>p => p.label && (...)\<close>: reading \<open>label\<close> of \<open>null\<close> throws, a falsy
  label ends the test, and \<open>toLowerCase\<close> of a truthy label that is not a string throws.
\<close>

definition labelTest :: "(string \<Rightarrow> bool) \<Rightarrow> json \<Rightarrow> error + bool" where
  "labelTest f p =
     (case p of
        JNull \<Rightarrow> Inl TypeError
      | _ \<Rightarrow>
        (case getProp p ''label'' of
           None \<Rightarrow> Inr False
         | Some v \<Rightarrow>
             if truthy v then (case v of JStr l \<Rightarrow> Inr (f l) | _ \<Rightarrow> Inl TypeError)
             else Inr False))"

text \<open>\<open>predictions.find(callback)\<close> with a callback that may throw.\<close>

fun findPred :: "(json \<Rightarrow> error + bool) \<Rightarrow> json list \<Rightarrow> error + json option" where
  "findPred f [] = Inr None"
| "findPred f (p # ps) =
     (case f p of
        Inl e \<Rightarrow> Inl e
      | Inr True \<Rightarrow> Inr (Some p)
      | Inr False \<Rightarrow> findPred f ps)"

datatype label = PHISHING | SAFE

record mlresult =
  ml_score :: jsnum
  ml_confidence :: jsnum
  ml_label :: label

definition parseMLResult :: "host \<Rightarrow> json \<Rightarrow> error + mlresult" where
  "parseMLResult env result =
     (case (case result of
              JArr (r0 # rs) \<Rightarrow>
                (let predictions = (case r0 of JArr ps \<Rightarrow> ps | _ \<Rightarrow> r0 # rs) in
                 case findPred (labelTest isSpamLabel) predictions of
                   Inl e \<Rightarrow> Inl e
                 | Inr (Some spamPred) \<Rightarrow>
                     Inr (True, jmul (toNum env (getProp spamPred ''score'')) (Num 100))
                 | Inr None \<Rightarrow>
                     (case findPred (labelTest isHamLabel) predictions of
                        Inl e \<Rightarrow> Inl e
                      | Inr (Some hamPred) \<Rightarrow>
                          Inr (False,
                               jmul (jsub (Num 1) (toNum env (getProp hamPred ''score''))) (Num 100))
                      | Inr None \<Rightarrow> Inr (False, Num 0)))
            | _ \<Rightarrow> Inr (False, Num 0)) of
        Inl e \<Rightarrow> Inl e
      | Inr (isPhishing, confidence) \<Rightarrow>
          (let phishingScore = (if isPhishing then confidence else jsub (Num 100) confidence)
           in Inr \<lparr>ml_score = phishingScore, ml_confidence = confidence,
                   ml_label = (if isPhishing then PHISHING else SAFE)\<rparr>))"

subsection \<open>The detector and the remote client\<close>

record model =
  model_name :: string
  model_url :: string
  model_type :: string

text \<open>
  The fields of the class. \<open>fetched\<close> is not a field of the source: it records, in
  order, the index of the model each \<open>fetch\<close> of the session was sent to, and its length
  numbers the next \<open>fetch\<close>.
\<close>

record detector =
  modelLoaded :: bool
  apiKey :: "string option"
  models :: "model list"
  currentModelIndex :: nat
  fetched :: "nat list"

definition constructor :: detector where
  "constructor =
     \<lparr>modelLoaded = False, apiKey = None,
      models =
        [\<lparr>model_name = ''Email Spam Detector'',
          model_url = ''https://api-inference.huggingface.co/models/mshenoda/roberta-spam'',
          model_type = ''classification''\<rparr>,
         \<lparr>model_name = ''SMS Phishing Detector'',
          model_url = ''https://api-inference.huggingface.co/models/mrm8488/bert-tiny-finetuned-sms-phishing-detection'',
          model_type = ''classification''\<rparr>],
      currentModelIndex = 0, fetched = []\<rparr>"

definition bearer :: "string option \<Rightarrow> string" where
  "bearer k = ''Bearer '' @ (case k of None \<Rightarrow> ''null'' | Some s \<Rightarrow> s)"

definition predictionRequest :: "detector \<Rightarrow> nat \<Rightarrow> string \<Rightarrow> request" where
  "predictionRequest st i text =
     \<lparr>req_url = model_url (models st ! i), authorization = bearer (apiKey st),
      inputs = take 500 text, wait_for_model = True, use_cache = Some False\<rparr>"

text \<open>
  \<open>getMLPrediction\<close>. When \<open>currentModelIndex\<close> is not an index of \<open>models\<close>,
  \<open>currentModel\<close> is \<open>undefined\<close> and reading its \<open>url\<close> throws; the \<open>catch\<close> of the
  source logs and throws the error again.
\<close>

function getMLPrediction :: "host \<Rightarrow> string \<Rightarrow> detector \<Rightarrow> (error + mlresult) \<times> detector" where
  "getMLPrediction env text st =
     (if currentModelIndex st < length (models st) then
        (case fetch env (length (fetched st)) (predictionRequest st (currentModelIndex st) text) of
           Rejected \<Rightarrow> (Inl NetworkError, st\<lparr>fetched := fetched st @ [currentModelIndex st]\<rparr>)
         | Response status body \<Rightarrow>
             if \<not> ok status then
               if status = 410 then
                 if (currentModelIndex st + 1) mod length (models st) = 0 then
                   (Inl AllModelsDeprecated,
                    st\<lparr>fetched := fetched st @ [currentModelIndex st],
                       currentModelIndex := (currentModelIndex st + 1) mod length (models st)\<rparr>)
                 else
                   getMLPrediction env text
                     (st\<lparr>fetched := fetched st @ [currentModelIndex st],
                         currentModelIndex := (currentModelIndex st + 1) mod length (models st)\<rparr>)
               else (Inl (ApiError status), st\<lparr>fetched := fetched st @ [currentModelIndex st]\<rparr>)
             else
               (case body of
                  None \<Rightarrow> (Inl JsonError, st\<lparr>fetched := fetched st @ [currentModelIndex st]\<rparr>)
                | Some result \<Rightarrow>
                    (parseMLResult env result,
                     st\<lparr>fetched := fetched st @ [currentModelIndex st]\<rparr>)))
      else (Inl TypeError, st))"
  by pat_completeness auto
termination
proof (relation "measure (\<lambda>(env, text, st). length (models st) - currentModelIndex st)")
  show "wf (measure (\<lambda>(env, text, st). length (models st) - currentModelIndex st))"
    by simp
next
  fix env :: host and t :: string and st :: detector
  assume lt: "currentModelIndex st < length (models st)"
    and nz: "(currentModelIndex st + 1) mod length (models st) \<noteq> 0"
  have "currentModelIndex st + 1 \<noteq> length (models st)"
    using nz by auto
  with lt have "currentModelIndex st + 1 < length (models st)"
    by simp
  then show "((env, t,
               st\<lparr>fetched := fetched st @ [currentModelIndex st],
                  currentModelIndex := (currentModelIndex st + 1) mod length (models st)\<rparr>),
              env, t, st)
             \<in> measure (\<lambda>(env, text, st). length (models st) - currentModelIndex st)"
    by simp
qed

subsection \<open>Session start\<close>

definition testRequest :: "detector \<Rightarrow> nat \<Rightarrow> request" where
  "testRequest st i =
     \<lparr>req_url = model_url (models st ! i), authorization = bearer (apiKey st),
      inputs = ''Test message for phishing detection'', wait_for_model = True,
      use_cache = None\<rparr>"

text \<open>
  The loop of \<open>testAPIConnection\<close> over the indices still to try: the first model that
  answers with a success status becomes the current one; every other answer, and a
  rejected \<open>fetch\<close>, moves on to the next index.
\<close>

fun testFrom :: "host \<Rightarrow> nat list \<Rightarrow> detector \<Rightarrow> (error + unit) \<times> detector" where
  "testFrom env [] st = (Inl AllModelsUnavailable, st)"
| "testFrom env (i # is) st =
     (case fetch env (length (fetched st)) (testRequest st i) of
        Rejected \<Rightarrow> testFrom env is (st\<lparr>fetched := fetched st @ [i]\<rparr>)
      | Response status body \<Rightarrow>
          if ok status then (Inr (), st\<lparr>fetched := fetched st @ [i], currentModelIndex := i\<rparr>)
          else testFrom env is (st\<lparr>fetched := fetched st @ [i]\<rparr>))"

definition testAPIConnection :: "host \<Rightarrow> detector \<Rightarrow> (error + unit) \<times> detector" where
  "testAPIConnection env st = testFrom env [0..<length (models st)] st"

text \<open>
  \<open>loadApiKey\<close> reads the stored key (\<open>None\<close> when there is none);
  \<open>result.huggingface_api_key || null\<close> turns the empty string into \<open>null\<close>.
\<close>

definition loadApiKey :: "string option \<Rightarrow> detector \<Rightarrow> detector" where
  "loadApiKey stored st =
     st\<lparr>apiKey := (case stored of None \<Rightarrow> None | Some k \<Rightarrow> if k = [] then None else Some k)\<rparr>"

definition loadModel :: "host \<Rightarrow> string option \<Rightarrow> detector \<Rightarrow> detector" where
  "loadModel env stored st =
     (let st1 = loadApiKey stored st in
      if apiKey st1 = None \<or> apiKey st1 = Some [] then st1\<lparr>modelLoaded := False\<rparr>
      else (case testAPIConnection env st1 of
              (Inr u, st2) \<Rightarrow> st2\<lparr>modelLoaded := True\<rparr>
            | (Inl e, st2) \<Rightarrow> st2\<lparr>modelLoaded := False\<rparr>))"

subsection \<open>The entry point\<close>

datatype risk = Low | Medium | High

text \<open>
  The confidence texts of the source. The three texts of the remote mode embed a
  number printed with \<open>toFixed(0)\<close>; the constructor carries that number.
\<close>

datatype confidenceText =
    AI_phishing jsnum
  | High_risk_detected
  | AI_suspicious jsnum
  | Potentially_suspicious
  | AI_safe jsnum
  | Appears_safe
  | Unable_to_analyze

record details =
  mlScore :: jsnum
  mlConfidence :: jsnum
  usedAI :: bool

record scoring =
  score :: jsnum
  riskLevel :: risk
  confidence :: confidenceText
  details :: details
  reasons :: "reason list"

text \<open>The block "Determine risk level" of \<open>analyzeEmail\<close>.\<close>

definition riskLevelOf :: "jsnum \<Rightarrow> jsnum \<Rightarrow> bool \<Rightarrow> risk \<times> confidenceText" where
  "riskLevelOf ml_sc ml_conf usedML =
     (if ge ml_sc 65 then
        (High, if usedML then AI_phishing ml_conf else High_risk_detected)
      else if ge ml_sc 35 then
        (Medium, if usedML then AI_suspicious ml_conf else Potentially_suspicious)
      else
        (Low, if usedML then AI_safe (jsub (Num 100) ml_conf) else Appears_safe))"

definition getErrorResult :: scoring where
  "getErrorResult =
     \<lparr>score = Num 50, riskLevel = Medium, confidence = Unable_to_analyze,
      details = \<lparr>mlScore = Num 50, mlConfidence = Num 0, usedAI = False\<rparr>,
      reasons = [Analysis_error]\<rparr>"

text \<open>
  \<open>subject?.substring(0, 40)\<close> in the logging line: \<open>null\<close> stops the optional chain,
  a string has the method, any other value has no \<open>substring\<close> and the call throws.
\<close>

fun logSubject :: "jsvalue \<Rightarrow> error + unit" where
  "logSubject (Str s) = Inr ()"
| "logSubject Null = Inr ()"
| "logSubject (NonString s) = Inl TypeError"

definition emailTextOf :: "emailData \<Rightarrow> string" where
  "emailTextOf d =
     ''From: '' @ toText (orDefault (sender d)) @ [CHR 0x0A] @ ''Subject: ''
     @ toText (orDefault (subject d)) @ [CHR 0x0A] @ toText (orDefault (snippet d))"

definition fallback :: "emailData \<Rightarrow> error + jsnum \<times> jsnum \<times> bool" where
  "fallback d =
     (case getEnhancedFallbackScore d of
        Inl e \<Rightarrow> Inl e
      | Inr v \<Rightarrow> Inr (Num (of_int v), Num 0, False))"

text \<open>
  The block "Try ML API if available" of \<open>analyzeEmail\<close>: the values of \<open>mlScore\<close>,
  \<open>mlConfidence\<close> and \<open>usedML\<close> after it. The inner \<open>try\<close> turns every failure of
  \<open>getMLPrediction\<close> into the heuristic score; the heuristic scorer itself may throw.
\<close>

definition scoreEmail ::
  "host \<Rightarrow> detector \<Rightarrow> emailData \<Rightarrow> (error + jsnum \<times> jsnum \<times> bool) \<times> detector" where
  "scoreEmail env st d =
     (if modelLoaded st \<and> apiKey st \<noteq> None \<and> apiKey st \<noteq> Some [] then
        (case getMLPrediction env (emailTextOf d) st of
           (Inr mlResult, st1) \<Rightarrow> (Inr (ml_score mlResult, ml_confidence mlResult, True), st1)
         | (Inl e, st1) \<Rightarrow> (fallback d, st1))
      else (fallback d, st))"

text \<open>
  The rest of the body of the outer \<open>try\<close>, from the risk level to the returned object.
\<close>

definition buildResult :: "emailData \<Rightarrow> jsnum \<Rightarrow> jsnum \<Rightarrow> bool \<Rightarrow> error + scoring" where
  "buildResult d ml_sc ml_conf usedML =
     (let (level, ctext) = riskLevelOf ml_sc ml_conf usedML in
      case generateReasons ml_sc d usedML of
        Inl e \<Rightarrow> Inl e
      | Inr rs \<Rightarrow>
          Inr \<lparr>score = jround ml_sc, riskLevel = level, confidence = ctext,
               details = \<lparr>mlScore = jround ml_sc, mlConfidence = jround ml_conf,
                          usedAI = usedML\<rparr>,
               reasons = rs\<rparr>)"

text \<open>
  The body of the outer \<open>try\<close> of \<open>analyzeEmail\<close>. Destructuring \<open>null\<close> or
  \<open>undefined\<close> throws.
\<close>

definition analyzeEmail_try ::
  "host \<Rightarrow> detector \<Rightarrow> emailData option \<Rightarrow> (error + scoring) \<times> detector" where
  "analyzeEmail_try env st emailData =
     (case emailData of
        None \<Rightarrow> (Inl TypeError, st)
      | Some d \<Rightarrow>
        (case logSubject (orDefault (subject d)) of
           Inl e \<Rightarrow> (Inl e, st)
         | Inr u \<Rightarrow>
           (case scoreEmail env st d of
              (Inl e, st') \<Rightarrow> (Inl e, st')
            | (Inr (ml_sc, ml_conf, usedML), st') \<Rightarrow>
                (buildResult d ml_sc ml_conf usedML, st'))))"

text \<open>\<open>analyzeEmail\<close>: the \<open>catch\<close> of the outer \<open>try\<close> returns \<open>getErrorResult()\<close>.\<close>

definition analyzeEmail :: "host \<Rightarrow> detector \<Rightarrow> emailData option \<Rightarrow> scoring \<times> detector" where
  "analyzeEmail env st emailData =
     (case analyzeEmail_try env st emailData of
        (Inl e, st') \<Rightarrow> (getErrorResult, st')
      | (Inr r, st') \<Rightarrow> (r, st'))"

subsection \<open>Auxiliary definitions for the statements\<close>

text \<open>
  A host whose network answers the \<open>k\<close>-th \<open>fetch\<close> of the session with the \<open>k\<close>-th
  entry of a script, and rejects every later one.
\<close>

definition scripted :: "outcome list \<Rightarrow> host" where
  "scripted os =
     \<lparr>fetch = (\<lambda>k r. if k < length os then os ! k else Rejected), toNumber = (\<lambda>v. NaN)\<rparr>"

definition pts :: "bool \<Rightarrow> int \<Rightarrow> int" where
  "pts c n = (if c then n else 0)"

text \<open>The unclamped sum of the points of the eleven rules, for a sender that is a string.\<close>

definition rulePoints :: "string \<Rightarrow> string \<Rightarrow> int" where
  "rulePoints text s =
     pts (rx_match rx_account text) 40 + pts (rx_match rx_urgent text) 35
     + pts (rx_match rx_prize text) 35 + pts (rx_match rx_payment text) 30
     + pts (rx_match rx_threat text) 30 + pts (rx_match rx_sensitive text) 35
     + pts (rx_match_i rx_domain s) 40 + pts (rx_match rx_shortener text) 20
     + pts (rx_match rx_greeting text) 15 + pts (rx_match rx_grammar text) 10
     + pts (brandImpersonation text s) 30"

text \<open>None of the eight content signals of \<open>generateReasons\<close> matches.\<close>

definition noContentSignal :: "emailData \<Rightarrow> bool" where
  "noContentSignal d =
     (\<not> rx_match (alts [''verify'', ''confirm'']) (normalizedText d)
      \<and> \<not> rx_match (alts [''suspended'', ''locked'']) (normalizedText d)
      \<and> \<not> rx_match (alts [''urgent'', ''immediately'']) (normalizedText d)
      \<and> \<not> rx_match (alts [''won'', ''prize'']) (normalizedText d)
      \<and> \<not> rx_match (Lit ''$'') (normalizedText d)
      \<and> \<not> rx_match (Lit ''click here'') (normalizedText d)
      \<and> \<not> rx_match_i (alts [''.tk'', ''.ml'', ''tempmail'']) (toText (orDefault (sender d)))
      \<and> \<not> rx_match_i (alts [''password'', ''credit card'']) (normalizedText d))"

text \<open>
  The outcomes of a \<open>fetch\<close> that are errors of the remote call other than the status
  410: a rejected \<open>fetch\<close>, another status outside 200..299, and a body that is not JSON.
\<close>

definition otherError :: "outcome \<Rightarrow> bool" where
  "otherError out =
     (case out of
        Rejected \<Rightarrow> True
      | Response status body \<Rightarrow>
          (if ok status then body = None else status \<noteq> 410))"

declare getMLPrediction.simps [simp del]

section \<open>Response normalisation\<close>

text \<open>
  C1. A response with no positive-class prediction and a negative-class prediction of raw
  score \<open>s\<close> should be given the phishing score \<open>(1 - s) * 100\<close> and the label SAFE.
  On the response \<open>[{label: "ham", score: 0.75}]\<close> the program computes the confidence
  \<open>(1 - 0.75) * 100 = 25\<close> and then returns the score \<open>100 - 25 = 75\<close> with the label
  SAFE.
\<close>

theorem parseMLResult_ham_only:
  "parseMLResult env (JArr [JObj [(''label'', JStr ''ham''), (''score'', JNum (3 / 4))]])
   = Inr \<lparr>ml_score = Num 75, ml_confidence = Num 25, ml_label = SAFE\<rparr>"
  by (simp add: parseMLResult_def labelTest_def isSpamLabel_def isHamLabel_def
      toLowerCase_def toLower_def startsWith_def)

text \<open>The same for every raw score \<open>s\<close>: the returned score is \<open>100 - (1 - s) * 100\<close>.\<close>

lemma parseMLResult_ham_score:
  "parseMLResult env (JArr [JObj [(''label'', JStr ''ham''), (''score'', JNum s)]])
   = Inr \<lparr>ml_score = Num (100 - (1 - s) * 100), ml_confidence = Num ((1 - s) * 100),
           ml_label = SAFE\<rparr>"
  by (simp add: parseMLResult_def labelTest_def isSpamLabel_def isHamLabel_def
      toLowerCase_def toLower_def startsWith_def)

text \<open>
  C2. A response in which neither class is found should be given the phishing score 0
  and the label SAFE, without an exception. On the empty array and on an object that is
  not an array the program returns the score \<open>100 - 0 = 100\<close> with the label SAFE.
\<close>

theorem parseMLResult_no_prediction:
  "parseMLResult env (JArr [])
   = Inr \<lparr>ml_score = Num 100, ml_confidence = Num 0, ml_label = SAFE\<rparr>
   \<and> parseMLResult env (JObj [(''error'', JStr ''Model is loading'')])
   = Inr \<lparr>ml_score = Num 100, ml_confidence = Num 0, ml_label = SAFE\<rparr>"
  by (simp add: parseMLResult_def)

text \<open>An array that holds \<open>null\<close> makes the callback of \<open>find\<close> throw.\<close>

lemma parseMLResult_null_prediction: "parseMLResult env (JArr [JNull]) = Inl TypeError"
  by (simp add: parseMLResult_def labelTest_def)

text \<open>A TypeError is the only exception of \<open>parseMLResult\<close>.\<close>

lemma labelTest_error: "labelTest f p = Inl e \<Longrightarrow> e = TypeError"
  by (auto simp: labelTest_def split: json.splits option.splits if_splits)

lemma findPred_error: "findPred (labelTest f) ps = Inl e \<Longrightarrow> e = TypeError"
  by (induction ps) (auto split: sum.splits bool.splits if_splits dest: labelTest_error)

lemma parseMLResult_error: "parseMLResult env result = Inl e \<Longrightarrow> e = TypeError"
  unfolding parseMLResult_def Let_def
  by (auto simp del: findPred.simps
      split: json.splits list.splits sum.splits option.splits prod.splits
      dest: findPred_error)

section \<open>The risk level\<close>

text \<open>
  C5. For every integer score from 0 to 100 the risk level is High from 65 on, Medium
  from 35 to 64 and Low below 35.
\<close>

theorem riskLevel_exact:
  assumes "0 \<le> n" and "n \<le> 100"
  shows "fst (riskLevelOf (Num (of_int n)) c u)
         = (if 65 \<le> n then High else if 35 \<le> n then Medium else Low)"
  using assms by (simp add: riskLevelOf_def)

theorem riskLevel_exact_witness:
  "fst (riskLevelOf (Num 0) (Num 0) False) = Low
   \<and> fst (riskLevelOf (Num 34) (Num 0) False) = Low
   \<and> fst (riskLevelOf (Num 35) (Num 0) False) = Medium
   \<and> fst (riskLevelOf (Num 64) (Num 0) False) = Medium
   \<and> fst (riskLevelOf (Num 65) (Num 0) False) = High
   \<and> fst (riskLevelOf (Num 100) (Num 0) False) = High"
  using riskLevel_exact [of 0 "Num 0" False] riskLevel_exact [of 34 "Num 0" False]
    riskLevel_exact [of 35 "Num 0" False] riskLevel_exact [of 64 "Num 0" False]
    riskLevel_exact [of 65 "Num 0" False] riskLevel_exact [of 100 "Num 0" False]
  by simp

section \<open>The heuristic scorer\<close>

subsection \<open>The score as a clamped sum\<close>

lemma if_add_pts: "(if c then x + n else x) = x + pts c n"
  by (simp add: pts_def)

lemma score_unfold:
  assumes "orDefault (sender d) = Str s"
  shows "getEnhancedFallbackScore d = Inr (min (rulePoints (normalizedText d) s) 100)"
  unfolding getEnhancedFallbackScore_def if_add_pts Let_def rulePoints_def
  using assms by simp

lemma score_throws:
  assumes "\<forall>s. orDefault (sender d) \<noteq> Str s"
  shows "getEnhancedFallbackScore d = Inl TypeError"
  unfolding getEnhancedFallbackScore_def if_add_pts Let_def
  using assms by (cases "orDefault (sender d)") simp_all

lemma pts_nonneg: "0 \<le> n \<Longrightarrow> 0 \<le> pts c n"
  by (simp add: pts_def)

lemma rulePoints_nonneg: "0 \<le> rulePoints text s"
  unfolding rulePoints_def by (intro add_nonneg_nonneg pts_nonneg) simp_all

text \<open>
  C6. For every email whose sender is a string (or absent), the heuristic scorer returns
  a value from 0 to 100, also when the sum of the points of the matching rules exceeds 100.
\<close>

theorem fallback_score_bounded:
  assumes "orDefault (sender d) = Str s"
  shows "\<exists>v. getEnhancedFallbackScore d = Inr v \<and> 0 \<le> v \<and> v \<le> 100"
  using assms rulePoints_nonneg [of "normalizedText d" s] by (simp add: score_unfold)

theorem fallback_score_bounded_witness:
  "\<exists>v. getEnhancedFallbackScore
          \<lparr>sender = Some (Str ''a@b.tk''), subject = Some (Str ''Urgent action: prize''),
           snippet = Some (Str ''Verify your account password kindly'')\<rparr> = Inr v
        \<and> 0 \<le> v \<and> v \<le> 100"
  using fallback_score_bounded
    [of "\<lparr>sender = Some (Str ''a@b.tk''), subject = Some (Str ''Urgent action: prize''),
          snippet = Some (Str ''Verify your account password kindly'')\<rparr>" "''a@b.tk''"]
  by (simp add: orDefault_def)

text \<open>On that email six rules match, their points add up to 195 and the score is 100.\<close>

lemma clamping_example:
  "rulePoints
     (normalizedText
        \<lparr>sender = Some (Str ''a@b.tk''), subject = Some (Str ''Urgent action: prize''),
         snippet = Some (Str ''Verify your account password kindly'')\<rparr>) ''a@b.tk'' = 195
   \<and> getEnhancedFallbackScore
        \<lparr>sender = Some (Str ''a@b.tk''), subject = Some (Str ''Urgent action: prize''),
         snippet = Some (Str ''Verify your account password kindly'')\<rparr> = Inr 100"
  by code_simp

subsection \<open>Matching survives text added at the end\<close>

lemma startsWith_iff: "startsWith s p \<longleftrightarrow> (\<exists>b. s = p @ b)"
proof
  assume "startsWith s p"
  then have "s = p @ drop (length p) s"
    unfolding startsWith_def by (metis append_take_drop_id)
  then show "\<exists>b. s = p @ b" ..
next
  assume "\<exists>b. s = p @ b"
  then show "startsWith s p" by (auto simp: startsWith_def)
qed

lemma str_includes_iff: "str_includes s p \<longleftrightarrow> (\<exists>a b. s = a @ p @ b)"
proof (induction s)
  case Nil
  then show ?case by auto
next
  case (Cons c cs)
  show ?case
  proof
    assume "str_includes (c # cs) p"
    then consider "startsWith (c # cs) p" | "str_includes cs p" by auto
    then show "\<exists>a b. c # cs = a @ p @ b"
    proof cases
      case 1
      then obtain b where "c # cs = p @ b" using startsWith_iff by blast
      then have "c # cs = [] @ p @ b" by simp
      then show ?thesis by blast
    next
      case 2
      then obtain a b where "cs = a @ p @ b" using Cons.IH by blast
      then have "c # cs = (c # a) @ p @ b" by simp
      then show ?thesis by blast
    qed
  next
    assume "\<exists>a b. c # cs = a @ p @ b"
    then obtain a b where ab: "c # cs = a @ p @ b" by blast
    show "str_includes (c # cs) p"
    proof (cases a)
      case Nil
      then have "startsWith (c # cs) p" using ab startsWith_iff by auto
      then show ?thesis by simp
    next
      case (Cons x xs)
      then have "cs = xs @ p @ b" using ab by simp
      then have "str_includes cs p" using Cons.IH by blast
      then show ?thesis by simp
    qed
  qed
qed

lemma star_rests_self: "s \<in> set (star_rests P s)"
  by (cases s) simp_all

lemma star_rests_append: "r \<in> set (star_rests P s) \<Longrightarrow> r @ e \<in> set (star_rests P (s @ e))"
proof (induction s)
  case Nil
  then show ?case using star_rests_self [of e P] by simp
next
  case (Cons c cs)
  then show ?case by (auto split: if_splits)
qed

lemma plus_rests_append: "r \<in> set (plus_rests P s) \<Longrightarrow> r @ e \<in> set (plus_rests P (s @ e))"
  by (cases s) (auto split: if_splits dest: star_rests_append)

lemma rx_rests_append: "r \<in> set (rx_rests x s) \<Longrightarrow> r @ e \<in> set (rx_rests x (s @ e))"
proof (induction x arbitrary: r s)
  case (Lit p)
  then have sw: "startsWith s p" and r: "r = drop (length p) s"
    by (auto split: if_splits)
  from sw obtain b where b: "s = p @ b" using startsWith_iff by blast
  then have "startsWith (s @ e) p" using startsWith_iff by auto
  moreover have "drop (length p) (s @ e) = r @ e" using b r by simp
  ultimately show ?case by simp
next
  case AnyStar
  then show ?case by (simp add: star_rests_append)
next
  case (OneOrMore cs)
  then show ?case by (simp add: plus_rests_append)
next
  case (Seq a b)
  then obtain m where "m \<in> set (rx_rests a s)" and "r \<in> set (rx_rests b m)"
    by auto
  then have "m @ e \<in> set (rx_rests a (s @ e))" and "r @ e \<in> set (rx_rests b (m @ e))"
    using Seq.IH by blast+
  then show ?case by auto
next
  case (Alt a b)
  then show ?case by auto
qed

lemma rx_match_head: "rx_rests x s \<noteq> [] \<Longrightarrow> rx_match x s"
  by (cases s) simp_all

lemma rx_rests_nonempty_append: "rx_rests x s \<noteq> [] \<Longrightarrow> rx_rests x (s @ e) \<noteq> []"
proof -
  assume "rx_rests x s \<noteq> []"
  then obtain r where "r \<in> set (rx_rests x s)" by (cases "rx_rests x s") auto
  then have "r @ e \<in> set (rx_rests x (s @ e))" by (rule rx_rests_append)
  then show ?thesis by auto
qed

lemma rx_match_append: "rx_match x s \<Longrightarrow> rx_match x (s @ e)"
proof (induction s)
  case Nil
  then have "rx_rests x ([] @ e) \<noteq> []" using rx_rests_nonempty_append [of x "[]" e] by simp
  then show ?case using rx_match_head by simp
next
  case (Cons c cs)
  then show ?case using rx_rests_nonempty_append [of x "c # cs" e] by auto
qed

lemma str_split_nonempty: "str_split sep s \<noteq> []"
  by (induction s) (auto split: list.splits)

lemma str_split_first: "str_split sep s = d # rest \<Longrightarrow> \<exists>b. s = d @ b"
proof (induction s arbitrary: d rest)
  case Nil
  then show ?case by simp
next
  case (Cons c cs)
  show ?case
  proof (cases "c = sep")
    case True
    then show ?thesis using Cons.prems by auto
  next
    case False
    then obtain x xs where x: "str_split sep cs = x # xs" and d: "d = c # x"
      using Cons.prems str_split_nonempty [of sep cs] by (auto split: list.splits)
    then obtain b where "cs = x @ b" using Cons.IH by blast
    then show ?thesis using d by simp
  qed
qed

lemma str_split_second: "str_split sep s = x # d # rest \<Longrightarrow> \<exists>a b. s = a @ d @ b"
proof (induction s arbitrary: x d rest)
  case Nil
  then show ?case by simp
next
  case (Cons c cs)
  show ?case
  proof (cases "c = sep")
    case True
    then have "str_split sep cs = d # rest" using Cons.prems by simp
    then obtain b where "cs = d @ b" using str_split_first by blast
    then have "c # cs = [c] @ d @ b" by simp
    then show ?thesis by blast
  next
    case False
    then obtain y ys where "str_split sep cs = y # ys" and "(c # y) # ys = x # d # rest"
      using Cons.prems str_split_nonempty [of sep cs] by (auto split: list.splits)
    then have "str_split sep cs = y # d # rest" by simp
    then obtain a b where "cs = a @ d @ b" using Cons.IH by blast
    then have "c # cs = (c # a) @ d @ b" by simp
    then show ?thesis by blast
  qed
qed

lemma domainOf_sub: "str_includes (domainOf s) p \<Longrightarrow> str_includes s p"
proof -
  assume a: "str_includes (domainOf s) p"
  show ?thesis
  proof (cases "\<exists>x d rest. str_split CHR ''@'' s = x # d # rest")
    case True
    then obtain x d rest where sp: "str_split CHR ''@'' s = x # d # rest" by blast
    then have "domainOf s = d" by (simp add: domainOf_def)
    moreover obtain u v where "s = u @ d @ v" using str_split_second [OF sp] by blast
    ultimately obtain a' b' where "s = u @ (a' @ p @ b') @ v"
      using a str_includes_iff by auto
    then have "s = (u @ a') @ p @ (b' @ v)" by simp
    then show ?thesis using str_includes_iff by blast
  next
    case False
    then have "domainOf s = []"
      by (auto simp: domainOf_def split: list.splits)
    then have "p = []" using a by simp
    then show ?thesis using str_includes_iff by auto
  qed
qed

lemma brands_lower: "b \<in> set brands \<Longrightarrow> toLowerCase b = b"
  by (auto simp: brands_def toLowerCase_def toLower_def)

lemma sender_in_text:
  assumes "b \<in> set brands" and "str_includes s b"
  shows "str_includes (toLowerCase (s @ rest)) b"
proof -
  obtain u v where "s = u @ b @ v" using assms(2) str_includes_iff by blast
  then have "toLowerCase (s @ rest) = toLowerCase u @ toLowerCase b @ toLowerCase (v @ rest)"
    by (simp add: toLowerCase_def)
  then show ?thesis using brands_lower [OF assms(1)] str_includes_iff by auto
qed

lemma find_first_unique:
  "find P xs = Some x \<Longrightarrow> find Q xs = Some y \<Longrightarrow> P y \<Longrightarrow> Q x \<Longrightarrow> x = y"
  by (induction xs) (auto split: if_splits)

lemma find_in_set: "find P xs = Some x \<Longrightarrow> x \<in> set xs \<and> P x"
  by (induction xs) (auto split: if_splits)

lemma brandImpersonation_append:
  assumes "brandImpersonation (toLowerCase (s @ rest)) s"
  shows "brandImpersonation (toLowerCase (s @ rest) @ e) s"
proof -
  let ?t = "toLowerCase (s @ rest)"
  from assms obtain b where fb: "find (\<lambda>b. str_includes ?t b) brands = Some b"
    and ne: "s \<noteq> []" and nd: "\<not> str_includes (domainOf s) b"
    by (auto simp: brandImpersonation_def split: option.splits)
  have bin: "b \<in> set brands" and bt: "str_includes ?t b"
    using find_in_set [OF fb] by auto
  have mono: "\<And>p. str_includes ?t p \<Longrightarrow> str_includes (?t @ e) p"
    using str_includes_iff by (metis append.assoc)
  have "find (\<lambda>b. str_includes (?t @ e) b) brands \<noteq> None"
    using bin bt mono by (auto simp: find_None_iff)
  then obtain b' where fb': "find (\<lambda>b. str_includes (?t @ e) b) brands = Some b'"
    by auto
  have "\<not> str_includes (domainOf s) b'"
  proof
    assume "str_includes (domainOf s) b'"
    then have "str_includes s b'" by (rule domainOf_sub)
    moreover have "b' \<in> set brands" using find_in_set [OF fb'] by simp
    ultimately have "str_includes ?t b'" by (simp add: sender_in_text)
    then have "b = b'" using find_first_unique [OF fb fb'] mono [OF bt] by simp
    then show False using nd \<open>str_includes (domainOf s) b'\<close> by simp
  qed
  then show ?thesis using fb' ne by (simp add: brandImpersonation_def)
qed

lemma pts_mono: "(c \<Longrightarrow> c') \<Longrightarrow> 0 \<le> n \<Longrightarrow> pts c n \<le> pts c' n"
  by (auto simp: pts_def)

lemma rulePoints_append:
  "rulePoints (toLowerCase (s @ rest)) s \<le> rulePoints (toLowerCase (s @ rest) @ e) s"
  unfolding rulePoints_def
  by (intro add_mono pts_mono rx_match_append brandImpersonation_append) simp_all

text \<open>
  C3, as amended. When text is added at the end of the snippet, and sender and subject
  stay as they are, the heuristic score does not decrease.
\<close>

theorem snippet_extension_monotone:
  assumes "sender d' = sender d" and "subject d' = subject d"
    and "toText (orDefault (snippet d')) = toText (orDefault (snippet d)) @ added"
    and "orDefault (sender d) = Str s"
  shows "\<exists>v v'. getEnhancedFallbackScore d = Inr v \<and> getEnhancedFallbackScore d' = Inr v'
           \<and> v \<le> v'"
proof -
  let ?rest = "'' '' @ toText (orDefault (subject d)) @ '' '' @ toText (orDefault (snippet d))"
  have t: "normalizedText d = toLowerCase (s @ ?rest)"
    using assms(4) by (simp add: normalizedText_def)
  have t': "normalizedText d' = toLowerCase (s @ ?rest) @ toLowerCase added"
    using assms by (simp add: normalizedText_def toLowerCase_def)
  have s': "orDefault (sender d') = Str s" using assms by simp
  have "rulePoints (normalizedText d) s \<le> rulePoints (normalizedText d') s"
    unfolding t t' by (rule rulePoints_append)
  then show ?thesis
    by (simp add: score_unfold [OF assms(4)] score_unfold [OF s'])
qed

theorem snippet_extension_monotone_witness:
  "\<exists>v v'. getEnhancedFallbackScore
             \<lparr>sender = Some (Str ''x@evil.com''), subject = Some (Str ''amazon''),
              snippet = Some (Str ''hello'')\<rparr> = Inr v
         \<and> getEnhancedFallbackScore
             \<lparr>sender = Some (Str ''x@evil.com''), subject = Some (Str ''amazon''),
              snippet = Some (Str ''hello kindly'')\<rparr> = Inr v'
         \<and> v \<le> v'"
  using snippet_extension_monotone
    [of "\<lparr>sender = Some (Str ''x@evil.com''), subject = Some (Str ''amazon''),
          snippet = Some (Str ''hello kindly'')\<rparr>"
        "\<lparr>sender = Some (Str ''x@evil.com''), subject = Some (Str ''amazon''),
          snippet = Some (Str ''hello'')\<rparr>"
        "'' kindly''" "''x@evil.com''"]
  by (simp add: orDefault_def)

text \<open>
  C3, as stated, fails when the text is added to the sender: the added text makes the
  rule of stock phrasing match (10 points) and puts the brand into the sender's domain,
  so the brand rule (30 points) no longer matches.
\<close>

theorem sender_extension_decreases:
  "getEnhancedFallbackScore
     \<lparr>sender = Some (Str ''x@evil.com''), subject = Some (Str ''amazon''),
      snippet = None\<rparr> = Inr 30
   \<and> getEnhancedFallbackScore
       \<lparr>sender = Some (Str (''x@evil.com'' @ ''.paypal.kindly.org'')),
        subject = Some (Str ''amazon''), snippet = None\<rparr> = Inr 10
   \<and> \<not> rx_match rx_grammar
         (normalizedText \<lparr>sender = Some (Str ''x@evil.com''), subject = Some (Str ''amazon''),
                          snippet = None\<rparr>)
   \<and> rx_match rx_grammar
       (normalizedText \<lparr>sender = Some (Str (''x@evil.com'' @ ''.paypal.kindly.org'')),
                        subject = Some (Str ''amazon''), snippet = None\<rparr>)"
  by code_simp

text \<open>
  Text added to the subject can also lower the score: it separates "dear" at the end of
  the subject from "customer" at the start of the snippet.
\<close>

lemma subject_extension_decreases:
  "getEnhancedFallbackScore
     \<lparr>sender = Some (Str ''a@b.com''), subject = Some (Str ''dear''),
      snippet = Some (Str ''customer'')\<rparr> = Inr 15
   \<and> getEnhancedFallbackScore
       \<lparr>sender = Some (Str ''a@b.com''), subject = Some (Str (''dear'' @ '' kindly'')),
        snippet = Some (Str ''customer'')\<rparr> = Inr 10"
  by code_simp

section \<open>The explanation generator\<close>

lemma push_if_app: "\<exists>ys. push_if c x xs = xs @ ys"
  by (simp add: push_if_def)

lemma reasons_shape:
  assumes "orDefault (sender d) = Str s"
  shows "\<exists>zs. generateReasons sc d u = Inr (modeIndicator sc u # take 4 zs)"
proof -
  let ?t = "normalizedText d"
  define r1 where "r1 = push_if (rx_match (alts [''verify'', ''confirm'']) ?t) Verification_request [modeIndicator sc u]"
  define r2 where "r2 = push_if (rx_match (alts [''suspended'', ''locked'']) ?t) Account_suspension_claim r1"
  define r3 where "r3 = push_if (rx_match (alts [''urgent'', ''immediately'']) ?t) Urgency_tactics r2"
  define r4 where "r4 = push_if (rx_match (alts [''won'', ''prize'']) ?t) Prize_scam r3"
  define r5 where "r5 = push_if (rx_match (Lit ''$'') ?t) Money_mentioned r4"
  define r6 where "r6 = push_if (rx_match (Lit ''click here'') ?t) Click_bait r5"
  define r7 where "r7 = push_if (rx_match_i (alts [''.tk'', ''.ml'', ''tempmail'']) s) Suspicious_domain r6"
  define r8 where "r8 = push_if (rx_match_i (alts [''password'', ''credit card'']) ?t) Sensitive_info_request r7"
  define r9 where "r9 = (if length r8 \<le> 1 then r8 @ [No_red_flags] else r8)"
  have g: "generateReasons sc d u = Inr (take 5 r9)"
    unfolding generateReasons_def Let_def r1_def r2_def r3_def r4_def r5_def r6_def r7_def
      r8_def r9_def
    using assms by simp
  obtain y1 where "r1 = [modeIndicator sc u] @ y1" unfolding r1_def by (metis push_if_app)
  moreover obtain y2 where "r2 = r1 @ y2" unfolding r2_def by (metis push_if_app)
  moreover obtain y3 where "r3 = r2 @ y3" unfolding r3_def by (metis push_if_app)
  moreover obtain y4 where "r4 = r3 @ y4" unfolding r4_def by (metis push_if_app)
  moreover obtain y5 where "r5 = r4 @ y5" unfolding r5_def by (metis push_if_app)
  moreover obtain y6 where "r6 = r5 @ y6" unfolding r6_def by (metis push_if_app)
  moreover obtain y7 where "r7 = r6 @ y7" unfolding r7_def by (metis push_if_app)
  moreover obtain y8 where "r8 = r7 @ y8" unfolding r8_def by (metis push_if_app)
  ultimately have r8: "r8 = modeIndicator sc u # (y1 @ y2 @ y3 @ y4 @ y5 @ y6 @ y7 @ y8)"
    by simp
  define ys where "ys = y1 @ y2 @ y3 @ y4 @ y5 @ y6 @ y7 @ y8"
  have "r9 = modeIndicator sc u # (if ys = [] then [No_red_flags] else ys)"
    using r8 by (simp add: r9_def ys_def)
  then have "take 5 r9 = modeIndicator sc u # take 4 (if ys = [] then [No_red_flags] else ys)"
    by simp
  with g show ?thesis by metis
qed

lemma reasons_none:
  assumes "orDefault (sender d) = Str s" and "noContentSignal d"
  shows "generateReasons sc d u = Inr [modeIndicator sc u, No_red_flags]"
  using assms unfolding generateReasons_def Let_def noContentSignal_def push_if_def by simp

lemma reasons_throws:
  assumes "\<forall>s. orDefault (sender d) \<noteq> Str s"
  shows "generateReasons sc d u = Inl TypeError"
  unfolding generateReasons_def Let_def
  using assms by (cases "orDefault (sender d)") simp_all

lemma reasons_returns:
  assumes "orDefault (sender d) = Str s"
  shows "\<exists>rs. generateReasons sc d u = Inr rs"
  unfolding generateReasons_def Let_def
  using assms by simp

text \<open>
  C8. For every score, every email whose sender is a string (or absent) and every mode,
  the explanation generator returns a list of at least 1 and at most 5 reasons; the first
  is the mode indicator; and the list holds the reason "No red flags" when no content
  signal matches.
\<close>

theorem generateReasons_bounds:
  assumes "orDefault (sender d) = Str s"
  shows "\<exists>rs. generateReasons sc d u = Inr rs \<and> 1 \<le> length rs \<and> length rs \<le> 5
           \<and> hd rs = modeIndicator sc u
           \<and> (noContentSignal d \<longrightarrow> No_red_flags \<in> set rs)"
proof -
  obtain zs where z: "generateReasons sc d u = Inr (modeIndicator sc u # take 4 zs)"
    using reasons_shape [OF assms] by blast
  show ?thesis
  proof (cases "noContentSignal d")
    case True
    then show ?thesis using reasons_none [OF assms True] by simp
  next
    case False
    then show ?thesis using z by simp
  qed
qed

theorem generateReasons_bounds_witness:
  "noContentSignal
     \<lparr>sender = Some (Str ''newsletter@company.com''), subject = Some (Str ''Weekly update''),
      snippet = Some (Str ''Here is what is new this week.'')\<rparr>
   \<and> (\<exists>rs. generateReasons (Num 0)
             \<lparr>sender = Some (Str ''newsletter@company.com''),
              subject = Some (Str ''Weekly update''),
              snippet = Some (Str ''Here is what is new this week.'')\<rparr> False = Inr rs
          \<and> 1 \<le> length rs \<and> length rs \<le> 5 \<and> hd rs = Pattern_detection
          \<and> No_red_flags \<in> set rs)"
proof -
  let ?d = "\<lparr>sender = Some (Str ''newsletter@company.com''),
             subject = Some (Str ''Weekly update''),
             snippet = Some (Str ''Here is what is new this week.'')\<rparr>"
  have n: "noContentSignal ?d" by code_simp
  have s: "orDefault (sender ?d) = Str ''newsletter@company.com''"
    by (simp add: orDefault_def)
  have m: "modeIndicator (Num 0) False = Pattern_detection"
    by (simp add: modeIndicator_def)
  show ?thesis using generateReasons_bounds [OF s, of "Num 0" False] n unfolding m by blast
qed

section \<open>The remote client\<close>

text \<open>
  One equation for each way through the body of \<open>getMLPrediction\<close>, and the case
  distinction on the first request that they give.
\<close>

lemma predictionRequest_frame [simp]:
  "predictionRequest (st\<lparr>fetched := f, currentModelIndex := i\<rparr>) j t = predictionRequest st j t"
  by (simp add: predictionRequest_def)

lemma gml_out_of_range:
  "\<not> currentModelIndex st < length (models st) \<Longrightarrow>
   getMLPrediction env t st = (Inl TypeError, st)"
  by (subst getMLPrediction.simps) simp

lemma gml_rejected:
  "currentModelIndex st < length (models st) \<Longrightarrow>
   fetch env (length (fetched st)) (predictionRequest st (currentModelIndex st) t) = Rejected \<Longrightarrow>
   getMLPrediction env t st
   = (Inl NetworkError, st\<lparr>fetched := fetched st @ [currentModelIndex st]\<rparr>)"
  by (subst getMLPrediction.simps) simp

lemma gml_api_error:
  "currentModelIndex st < length (models st) \<Longrightarrow>
   fetch env (length (fetched st)) (predictionRequest st (currentModelIndex st) t)
     = Response status body \<Longrightarrow>
   \<not> ok status \<Longrightarrow> status \<noteq> 410 \<Longrightarrow>
   getMLPrediction env t st
   = (Inl (ApiError status), st\<lparr>fetched := fetched st @ [currentModelIndex st]\<rparr>)"
  by (subst getMLPrediction.simps) simp

lemma gml_no_json:
  "currentModelIndex st < length (models st) \<Longrightarrow>
   fetch env (length (fetched st)) (predictionRequest st (currentModelIndex st) t)
     = Response status None \<Longrightarrow>
   ok status \<Longrightarrow>
   getMLPrediction env t st
   = (Inl JsonError, st\<lparr>fetched := fetched st @ [currentModelIndex st]\<rparr>)"
  by (subst getMLPrediction.simps) simp

lemma gml_success:
  "currentModelIndex st < length (models st) \<Longrightarrow>
   fetch env (length (fetched st)) (predictionRequest st (currentModelIndex st) t)
     = Response status (Some result) \<Longrightarrow>
   ok status \<Longrightarrow>
   getMLPrediction env t st
   = (parseMLResult env result, st\<lparr>fetched := fetched st @ [currentModelIndex st]\<rparr>)"
  by (subst getMLPrediction.simps) simp

lemma gml_gone_last:
  "fetch env (length (fetched st)) (predictionRequest st (currentModelIndex st) t)
     = Response 410 body \<Longrightarrow>
   Suc (currentModelIndex st) = length (models st) \<Longrightarrow>
   getMLPrediction env t st
   = (Inl AllModelsDeprecated,
      st\<lparr>fetched := fetched st @ [currentModelIndex st], currentModelIndex := 0\<rparr>)"
  by (subst getMLPrediction.simps) (auto simp: ok_def)

lemma gml_gone_next:
  "fetch env (length (fetched st)) (predictionRequest st (currentModelIndex st) t)
     = Response 410 body \<Longrightarrow>
   Suc (currentModelIndex st) < length (models st) \<Longrightarrow>
   getMLPrediction env t st
   = getMLPrediction env t
       (st\<lparr>fetched := fetched st @ [currentModelIndex st],
           currentModelIndex := Suc (currentModelIndex st)\<rparr>)"
  by (subst getMLPrediction.simps) (simp add: ok_def)

lemma gml_cases:
  obtains (out_of_range) "\<not> currentModelIndex st < length (models st)"
  | (single) r where "currentModelIndex st < length (models st)"
      and "\<forall>body. fetch env (length (fetched st)) (predictionRequest st (currentModelIndex st) t) \<noteq> Response 410 body"
      and "getMLPrediction env t st = (r, st\<lparr>fetched := fetched st @ [currentModelIndex st]\<rparr>)"
      and "r \<noteq> Inl AllModelsDeprecated"
  | (gone_last) body where "Suc (currentModelIndex st) = length (models st)"
      and "fetch env (length (fetched st)) (predictionRequest st (currentModelIndex st) t) = Response 410 body"
  | (gone_next) body where "Suc (currentModelIndex st) < length (models st)"
      and "fetch env (length (fetched st)) (predictionRequest st (currentModelIndex st) t) = Response 410 body"
proof (cases "currentModelIndex st < length (models st)")
  case False
  then show ?thesis by (rule out_of_range)
next
  case lt: True
  show ?thesis
  proof (cases "fetch env (length (fetched st)) (predictionRequest st (currentModelIndex st) t)")
    case Rejected
    show ?thesis
      by (rule single [OF lt _ gml_rejected [OF lt Rejected]]) (simp_all add: Rejected)
  next
    case (Response status body)
    show ?thesis
    proof (cases "status = 410")
      case True
      then show ?thesis using Response lt gone_last gone_next
        by (cases "Suc (currentModelIndex st) = length (models st)") auto
    next
      case ne: False
      show ?thesis
      proof (cases "ok status")
        case False
        show ?thesis
          by (rule single [OF lt _ gml_api_error [OF lt Response False ne]]) (simp_all add: Response ne)
      next
        case True
        show ?thesis
        proof (cases body)
          case None
          show ?thesis
            by (rule single [OF lt _ gml_no_json [OF lt Response [unfolded None] True]])
              (simp_all add: Response ne)
        next
          case (Some result)
          show ?thesis
            by (rule single [OF lt _ gml_success [OF lt Response [unfolded Some] True]])
              (use parseMLResult_error [of env result] in \<open>auto simp: Response ne\<close>)
        qed
      qed
    qed
  qed
qed

text \<open>The requests of one call, by induction on the number of models left.\<close>

lemma gml_fetched:
  "\<exists>k. k \<le> length (models st) - currentModelIndex st
     \<and> fetched (snd (getMLPrediction env t st))
         = fetched st @ [currentModelIndex st ..< currentModelIndex st + k]
     \<and> models (snd (getMLPrediction env t st)) = models st"
proof (induction "length (models st) - currentModelIndex st" arbitrary: st rule: less_induct)
  case less
  let ?i = "currentModelIndex st"
  show ?case
  proof (cases rule: gml_cases [where st = st and env = env and t = t])
    case out_of_range
    then have "getMLPrediction env t st = (Inl TypeError, st)" by (rule gml_out_of_range)
    then have "0 \<le> length (models st) - ?i
        \<and> fetched (snd (getMLPrediction env t st)) = fetched st @ [?i ..< ?i + 0]
        \<and> models (snd (getMLPrediction env t st)) = models st"
      by simp
    then show ?thesis by blast
  next
    case (single r)
    then have "1 \<le> length (models st) - ?i
        \<and> fetched (snd (getMLPrediction env t st)) = fetched st @ [?i ..< ?i + 1]
        \<and> models (snd (getMLPrediction env t st)) = models st"
      by simp
    then show ?thesis by blast
  next
    case (gone_last body)
    have r: "getMLPrediction env t st
          = (Inl AllModelsDeprecated, st\<lparr>fetched := fetched st @ [?i], currentModelIndex := 0\<rparr>)"
      using gone_last by (intro gml_gone_last) auto
    have lt: "?i < length (models st)" using gone_last(1) by arith
    have "fetched (snd (getMLPrediction env t st)) = fetched st @ [?i ..< ?i + 1]"
      unfolding r by simp
    moreover have "models (snd (getMLPrediction env t st)) = models st"
      unfolding r by simp
    moreover have "1 \<le> length (models st) - ?i" using lt by simp
    ultimately show ?thesis by blast
  next
    case (gone_next body)
    let ?st2 = "st\<lparr>fetched := fetched st @ [?i], currentModelIndex := Suc ?i\<rparr>"
    have eq: "getMLPrediction env t st = getMLPrediction env t ?st2"
      using gone_next by (intro gml_gone_next) auto
    have "length (models ?st2) - currentModelIndex ?st2 < length (models st) - ?i"
      using gone_next(1) by simp
    from less [OF this] obtain k where k: "k \<le> length (models st) - Suc ?i"
      and f: "fetched (snd (getMLPrediction env t ?st2)) = (fetched st @ [?i]) @ [Suc ?i ..< Suc ?i + k]"
      and m: "models (snd (getMLPrediction env t ?st2)) = models st"
      by auto
    have "[?i ..< ?i + Suc k] = ?i # [Suc ?i ..< Suc ?i + k]"
      by (simp add: upt_conv_Cons)
    then have "Suc k \<le> length (models st) - ?i
        \<and> fetched (snd (getMLPrediction env t st)) = fetched st @ [?i ..< ?i + Suc k]
        \<and> models (snd (getMLPrediction env t st)) = models st"
      using k f m eq gone_next(1) by simp
    then show ?thesis by blast
  qed
qed

text \<open>
  C10. One call of \<open>getMLPrediction\<close> terminates (the function is total, by the
  termination proof above) and sends its requests to the models of consecutive indices
  from the current one on: at most one request to each model, and at most as many
  requests as there are models.
\<close>

theorem getMLPrediction_bounded:
  "\<exists>k. k \<le> length (models st)
     \<and> fetched (snd (getMLPrediction env t st))
         = fetched st @ [currentModelIndex st ..< currentModelIndex st + k]
     \<and> distinct [currentModelIndex st ..< currentModelIndex st + k]
     \<and> set [currentModelIndex st ..< currentModelIndex st + k] \<subseteq> {0 ..< length (models st)}"
proof -
  obtain k where k: "k \<le> length (models st) - currentModelIndex st"
    and f: "fetched (snd (getMLPrediction env t st))
            = fetched st @ [currentModelIndex st ..< currentModelIndex st + k]"
    using gml_fetched [of st env t] by blast
  have "k \<le> length (models st)" using k by simp
  moreover have "set [currentModelIndex st ..< currentModelIndex st + k] \<subseteq> {0 ..< length (models st)}"
    using k by auto
  ultimately show ?thesis using f by auto
qed

theorem getMLPrediction_bounded_witness:
  "\<exists>k. k \<le> length (models constructor)
     \<and> fetched (snd (getMLPrediction (scripted [Response 410 None, Response 410 None])
                        ''hello'' constructor))
         = fetched constructor
           @ [currentModelIndex constructor ..< currentModelIndex constructor + k]
     \<and> distinct [currentModelIndex constructor ..< currentModelIndex constructor + k]
     \<and> set [currentModelIndex constructor ..< currentModelIndex constructor + k]
         \<subseteq> {0 ..< length (models constructor)}"
  by (rule getMLPrediction_bounded)

text \<open>On that script both models are asked once, in order.\<close>

lemma both_models_asked:
  "fetched (snd (getMLPrediction (scripted [Response 410 None, Response 410 None])
                   ''hello'' constructor)) = [0, 1]"
  by code_simp

lemma predictionRequest_fetched [simp]:
  "predictionRequest (st\<lparr>fetched := f\<rparr>) j t = predictionRequest st j t"
  by (simp add: predictionRequest_def)

text \<open>
  C9. When the answer to the request is not the status 410, the call leaves
  \<open>currentModelIndex\<close> as it was, so that the next call sends its request to the same
  model; and when that answer is an error (a rejected \<open>fetch\<close>, another status outside
  200..299, a body that is not JSON), the call fails.
\<close>

theorem other_error_keeps_index:
  assumes "fetch env (length (fetched st)) (predictionRequest st (currentModelIndex st) t) = out"
    and "\<forall>body. out \<noteq> Response 410 body"
  shows "currentModelIndex (snd (getMLPrediction env t st)) = currentModelIndex st
         \<and> predictionRequest (snd (getMLPrediction env t st))
             (currentModelIndex (snd (getMLPrediction env t st))) t2
           = predictionRequest st (currentModelIndex st) t2
         \<and> (currentModelIndex st < length (models st) \<and> otherError out
              \<longrightarrow> isl (fst (getMLPrediction env t st)))"
proof (cases rule: gml_cases [where st = st and env = env and t = t])
  case out_of_range
  then have "getMLPrediction env t st = (Inl TypeError, st)" by (rule gml_out_of_range)
  then show ?thesis using out_of_range by simp
next
  case (single r)
  have "isl r" if e: "otherError out"
  proof (cases out)
    case Rejected
    then show ?thesis using gml_rejected [OF single(1), of env t] assms(1) single(3) by simp
  next
    case (Response status body)
    show ?thesis
    proof (cases "ok status")
      case True
      then have "body = None" using e Response by (simp add: otherError_def)
      then show ?thesis
        using gml_no_json [OF single(1), of env t status] assms(1) single(3) Response True
        by simp
    next
      case False
      then have "status \<noteq> 410" using e Response by (simp add: otherError_def)
      then show ?thesis
        using gml_api_error [OF single(1), of env t status body] assms(1) single(3) Response
          False
        by simp
    qed
  qed
  then show ?thesis using single(3) by simp
next
  case (gone_last body)
  then show ?thesis using assms by simp
next
  case (gone_next body)
  then show ?thesis using assms by simp
qed

theorem other_error_keeps_index_witness:
  "fetch (scripted [Response 503 None]) (length (fetched constructor))
     (predictionRequest constructor (currentModelIndex constructor) ''hello'')
   = Response 503 None
   \<and> otherError (Response 503 None)
   \<and> currentModelIndex constructor < length (models constructor)
   \<and> currentModelIndex (snd (getMLPrediction (scripted [Response 503 None]) ''hello''
                                 constructor)) = currentModelIndex constructor
   \<and> isl (fst (getMLPrediction (scripted [Response 503 None]) ''hello'' constructor))"
proof -
  have f: "fetch (scripted [Response 503 None]) (length (fetched constructor))
             (predictionRequest constructor (currentModelIndex constructor) ''hello'')
           = Response 503 None"
    by (simp add: scripted_def constructor_def)
  have n: "\<forall>body. Response 503 None \<noteq> Response 410 body" by simp
  have e: "otherError (Response 503 None)" by (simp add: otherError_def ok_def)
  have l: "currentModelIndex constructor < length (models constructor)"
    by (simp add: constructor_def)
  show ?thesis using other_error_keeps_index [OF f n, of "''hello''"] f e l by blast
qed

text \<open>
  A status 410 earlier in the same call has already moved the index when a later request
  fails otherwise: the first model answers 410, the second 503; the call fails with the
  error of the status 503 and the index is 1, where the next call starts.
\<close>

lemma gone_then_error_example:
  "getMLPrediction (scripted [Response 410 None, Response 503 None]) ''hello'' constructor
   = (Inl (ApiError 503), constructor\<lparr>currentModelIndex := 1, fetched := [0, 1]\<rparr>)"
  by code_simp

text \<open>
  C4, as amended. The call fails with "All models deprecated" only after every model from
  the current index to the end of the list has been asked in this call, in list order,
  and each has answered with the status 410; the index is then 0. The models before the
  starting index are not asked in that call.
\<close>

theorem exhausted_after_tail_gone:
  assumes "getMLPrediction env t st = (Inl AllModelsDeprecated, st')"
  shows "currentModelIndex st < length (models st)
         \<and> fetched st' = fetched st @ [currentModelIndex st ..< length (models st)]
         \<and> currentModelIndex st' = 0
         \<and> (\<forall>j. currentModelIndex st \<le> j \<and> j < length (models st) \<longrightarrow>
               (\<exists>body. fetch env (length (fetched st) + (j - currentModelIndex st))
                         (predictionRequest st j t) = Response 410 body))"
  using assms
proof (induction "length (models st) - currentModelIndex st" arbitrary: st rule: less_induct)
  case less
  let ?i = "currentModelIndex st"
  let ?n = "length (models st)"
  note res = less.prems
  show ?case
  proof (cases rule: gml_cases [where st = st and env = env and t = t])
    case out_of_range
    then have "getMLPrediction env t st = (Inl TypeError, st)" by (rule gml_out_of_range)
    with res show ?thesis by simp
  next
    case (single r)
    with res show ?thesis by simp
  next
    case (gone_last body)
    have "getMLPrediction env t st
          = (Inl AllModelsDeprecated, st\<lparr>fetched := fetched st @ [?i], currentModelIndex := 0\<rparr>)"
      using gone_last by (intro gml_gone_last) auto
    with res have st': "st' = st\<lparr>fetched := fetched st @ [?i], currentModelIndex := 0\<rparr>"
      by simp
    have lt: "?i < ?n" using gone_last(1) by arith
    have "[?i ..< Suc ?i] = [?i]" by simp
    then have up: "[?i ..< ?n] = [?i]" using gone_last(1) by metis
    have only: "j = ?i" if "?i \<le> j \<and> j < ?n" for j
      using that gone_last(1) by arith
    have g: "\<forall>j. ?i \<le> j \<and> j < ?n \<longrightarrow>
        (\<exists>b. fetch env (length (fetched st) + (j - ?i)) (predictionRequest st j t)
                 = Response 410 b)"
    proof (intro allI impI)
      fix j assume "?i \<le> j \<and> j < ?n"
      then have "j = ?i" by (rule only)
      then show "\<exists>b. fetch env (length (fetched st) + (j - ?i)) (predictionRequest st j t)
                 = Response 410 b"
        using gone_last(2) by simp
    qed
    have "fetched st' = fetched st @ [?i ..< ?n]" unfolding up st' by simp
    moreover have "currentModelIndex st' = 0" unfolding st' by simp
    ultimately show ?thesis using lt g by blast
  next
    case (gone_next body)
    let ?st2 = "st\<lparr>fetched := fetched st @ [?i], currentModelIndex := Suc ?i\<rparr>"
    have eq: "getMLPrediction env t st = getMLPrediction env t ?st2"
      using gone_next by (intro gml_gone_next) auto
    have lt: "?i < ?n" using gone_next(1) by arith
    have dec: "length (models ?st2) - currentModelIndex ?st2 < ?n - ?i"
      using gone_next(1) by simp
    have r2: "getMLPrediction env t ?st2 = (Inl AllModelsDeprecated, st')"
      using res eq by simp
    from less.hyps [OF dec r2]
    have ih1: "fetched st' = (fetched st @ [?i]) @ [Suc ?i ..< ?n]"
      and ih2: "currentModelIndex st' = 0"
      and ih3: "\<forall>j. Suc ?i \<le> j \<and> j < ?n \<longrightarrow>
               (\<exists>b. fetch env (Suc (length (fetched st)) + (j - Suc ?i))
                         (predictionRequest st j t) = Response 410 b)"
      by simp_all
    have "[?i ..< ?n] = ?i # [Suc ?i ..< ?n]"
      using lt by (rule upt_conv_Cons)
    then have f: "fetched st' = fetched st @ [?i ..< ?n]" using ih1 by simp
    have g: "\<forall>j. ?i \<le> j \<and> j < ?n \<longrightarrow>
        (\<exists>b. fetch env (length (fetched st) + (j - ?i)) (predictionRequest st j t)
                 = Response 410 b)"
    proof (intro allI impI)
      fix j assume j: "?i \<le> j \<and> j < ?n"
      show "\<exists>b. fetch env (length (fetched st) + (j - ?i)) (predictionRequest st j t)
                 = Response 410 b"
      proof (cases "j = ?i")
        case True
        then show ?thesis using gone_next(2) by simp
      next
        case False
        then have sj: "Suc ?i \<le> j \<and> j < ?n" using j by arith
        then obtain b where "fetch env (Suc (length (fetched st)) + (j - Suc ?i))
                         (predictionRequest st j t) = Response 410 b"
          using ih3 by blast
        moreover have "Suc (length (fetched st)) + (j - Suc ?i) = length (fetched st) + (j - ?i)"
          using sj by arith
        ultimately have "fetch env (length (fetched st) + (j - ?i)) (predictionRequest st j t)
                         = Response 410 b"
          by metis
        then show ?thesis ..
      qed
    qed
    show ?thesis using lt f ih2 g by blast
  qed
qed

theorem exhausted_after_tail_gone_witness:
  "getMLPrediction (scripted [Response 410 None, Response 410 None]) ''hello'' constructor
   = (Inl AllModelsDeprecated, constructor\<lparr>fetched := [0, 1]\<rparr>)
   \<and> currentModelIndex constructor < length (models constructor)
   \<and> fetched (constructor\<lparr>fetched := [0, 1]\<rparr>)
     = fetched constructor @ [currentModelIndex constructor ..< length (models constructor)]
   \<and> currentModelIndex (constructor\<lparr>fetched := [0, 1]\<rparr>) = 0"
proof -
  have h: "getMLPrediction (scripted [Response 410 None, Response 410 None]) ''hello''
             constructor
           = (Inl AllModelsDeprecated, constructor\<lparr>fetched := [0, 1]\<rparr>)"
    by code_simp
  show ?thesis using exhausted_after_tail_gone [OF h] h by blast
qed

text \<open>
  C4, as stated, fails when the call starts at an index other than 0. At session start the
  first model answers the test with the status 503 and the second with 200, so the
  current index becomes 1; the call then gets the status 410 from the second model and
  fails with "All models deprecated" after that single request. The first model was not
  asked in the call and has never answered with the status 410.
\<close>

theorem exhausted_skips_first_model:
  "currentModelIndex
     (loadModel (scripted [Response 503 None, Response 200 (Some (JArr [])), Response 410 None])
        (Some ''key'') constructor) = 1
   \<and> fetched
       (loadModel (scripted [Response 503 None, Response 200 (Some (JArr [])), Response 410 None])
          (Some ''key'') constructor) = [0, 1]
   \<and> fst (getMLPrediction
            (scripted [Response 503 None, Response 200 (Some (JArr [])), Response 410 None])
            ''hello''
            (loadModel
               (scripted [Response 503 None, Response 200 (Some (JArr [])), Response 410 None])
               (Some ''key'') constructor)) = Inl AllModelsDeprecated
   \<and> fetched (snd (getMLPrediction
            (scripted [Response 503 None, Response 200 (Some (JArr [])), Response 410 None])
            ''hello''
            (loadModel
               (scripted [Response 503 None, Response 200 (Some (JArr [])), Response 410 None])
               (Some ''key'') constructor))) = [0, 1, 1]"
  by code_simp

text \<open>
  The failover of the specification's example: the first model answers 410, the second
  succeeds; the result is the second model's and the index stays at 1.
\<close>

lemma failover_example:
  "getMLPrediction
     (scripted [Response 410 None,
                Response 200 (Some (JArr [JObj [(''label'', JStr ''spam''), (''score'', JNum 1)]]))])
     ''hello'' constructor
   = (Inr \<lparr>ml_score = Num 100, ml_confidence = Num 100, ml_label = PHISHING\<rparr>,
      constructor\<lparr>currentModelIndex := 1, fetched := [0, 1]\<rparr>)"
  by (simp add: getMLPrediction.simps constructor_def scripted_def predictionRequest_def
      ok_def parseMLResult_def labelTest_def isSpamLabel_def toLowerCase_def toLower_def
      startsWith_def)

section \<open>The entry point\<close>

lemma scoreEmail_string_sender:
  assumes "orDefault (sender d) = Str s"
  shows "\<exists>a b c st'. scoreEmail env st d = (Inr (a, b, c), st')"
proof -
  have f: "\<exists>v. fallback d = Inr (Num (of_int v), Num 0, False)"
    by (simp add: fallback_def score_unfold [OF assms])
  obtain r st1 where g: "getMLPrediction env (emailTextOf d) st = (r, st1)"
    by (cases "getMLPrediction env (emailTextOf d) st")
  show ?thesis
  proof (cases r)
    case (Inl e)
    then show ?thesis using f g by (auto simp: scoreEmail_def)
  next
    case (Inr m)
    then show ?thesis using f g by (auto simp: scoreEmail_def)
  qed
qed

lemma scoreEmail_other_sender:
  assumes "\<forall>s. orDefault (sender d) \<noteq> Str s"
  shows "(\<exists>st'. scoreEmail env st d = (Inl TypeError, st'))
         \<or> (\<exists>a b c st'. scoreEmail env st d = (Inr (a, b, c), st'))"
proof -
  have f: "fallback d = Inl TypeError"
    by (simp add: fallback_def score_throws [OF assms])
  obtain r st1 where g: "getMLPrediction env (emailTextOf d) st = (r, st1)"
    by (cases "getMLPrediction env (emailTextOf d) st")
  show ?thesis
  proof (cases r)
    case (Inl e)
    then show ?thesis using f g by (auto simp: scoreEmail_def)
  next
    case (Inr m)
    then show ?thesis using f g by (auto simp: scoreEmail_def)
  qed
qed

lemma buildResult_isl:
  "isl (buildResult d a b c) \<longleftrightarrow> (\<forall>s. orDefault (sender d) \<noteq> Str s)"
proof (cases "\<forall>s. orDefault (sender d) \<noteq> Str s")
  case True
  then show ?thesis
    by (simp add: buildResult_def reasons_throws [OF True] split: prod.splits)
next
  case False
  then obtain s where s: "orDefault (sender d) = Str s" by blast
  obtain rs where "generateReasons a d c = Inr rs"
    using reasons_returns [OF s] by blast
  then show ?thesis using s
    by (simp add: buildResult_def split: prod.splits)
qed

text \<open>
  The body throws exactly when \<open>emailData\<close> is \<open>null\<close> or \<open>undefined\<close>, when the
  subject is neither a string nor \<open>null\<close>, or when the sender is not a string.
\<close>

lemma try_throws_iff:
  "isl (fst (analyzeEmail_try env st emailData)) \<longleftrightarrow>
     (case emailData of
        None \<Rightarrow> True
      | Some d \<Rightarrow> (\<exists>s. orDefault (subject d) = NonString s) \<or> (\<forall>s. orDefault (sender d) \<noteq> Str s))"
proof (cases emailData)
  case None
  then show ?thesis by (simp add: analyzeEmail_try_def)
next
  case (Some d)
  show ?thesis
  proof (cases "\<exists>s. orDefault (subject d) = NonString s")
    case True
    then show ?thesis using Some by (auto simp: analyzeEmail_try_def)
  next
    case False
    then have ls: "logSubject (orDefault (subject d)) = Inr ()"
      by (cases "orDefault (subject d)") simp_all
    show ?thesis
    proof (cases "\<forall>s. orDefault (sender d) \<noteq> Str s")
      case True
      from scoreEmail_other_sender [OF True, of env st] show ?thesis
      proof
        assume "\<exists>st'. scoreEmail env st d = (Inl TypeError, st')"
        then show ?thesis using Some True ls by (auto simp: analyzeEmail_try_def)
      next
        assume "\<exists>a b c st'. scoreEmail env st d = (Inr (a, b, c), st')"
        then obtain a b c st' where "scoreEmail env st d = (Inr (a, b, c), st')" by blast
        then have "fst (analyzeEmail_try env st emailData) = buildResult d a b c"
          using Some ls by (simp add: analyzeEmail_try_def)
        then show ?thesis using Some True buildResult_isl [of d a b c] by simp
      qed
    next
      case nt: False
      then obtain s where s: "orDefault (sender d) = Str s" by blast
      obtain a b c st' where "scoreEmail env st d = (Inr (a, b, c), st')"
        using scoreEmail_string_sender [OF s] by blast
      then have "fst (analyzeEmail_try env st emailData) = buildResult d a b c"
        using Some ls by (simp add: analyzeEmail_try_def)
      then show ?thesis using Some False nt buildResult_isl [of d a b c] by simp
    qed
  qed
qed

text \<open>
  C7. Whenever the body of the outer \<open>try\<close> of \<open>analyzeEmail\<close> throws, the entry
  point returns the fixed result of \<open>getErrorResult\<close> (score 50, risk level Medium,
  the text "Unable to analyze", the single reason "Analysis error") and no exception
  leaves it.
\<close>

theorem analyzeEmail_catches:
  assumes "fst (analyzeEmail_try env st emailData) = Inl e"
  shows "fst (analyzeEmail env st emailData) = getErrorResult
         \<and> score (fst (analyzeEmail env st emailData)) = Num 50
         \<and> riskLevel (fst (analyzeEmail env st emailData)) = Medium
         \<and> confidence (fst (analyzeEmail env st emailData)) = Unable_to_analyze
         \<and> reasons (fst (analyzeEmail env st emailData)) = [Analysis_error]"
proof -
  obtain r st' where p: "analyzeEmail_try env st emailData = (r, st')"
    by (cases "analyzeEmail_try env st emailData")
  with assms have "r = Inl e" by simp
  with p have "fst (analyzeEmail env st emailData) = getErrorResult"
    by (simp add: analyzeEmail_def)
  then show ?thesis by (simp add: getErrorResult_def)
qed

theorem analyzeEmail_catches_witness:
  "fst (analyzeEmail_try (scripted []) constructor
          (Some \<lparr>sender = Some (NonString ''42''), subject = Some (Str ''hello''),
                 snippet = None\<rparr>)) = Inl TypeError
   \<and> fst (analyzeEmail (scripted []) constructor
          (Some \<lparr>sender = Some (NonString ''42''), subject = Some (Str ''hello''),
                 snippet = None\<rparr>)) = getErrorResult
   \<and> score (fst (analyzeEmail (scripted []) constructor
          (Some \<lparr>sender = Some (NonString ''42''), subject = Some (Str ''hello''),
                 snippet = None\<rparr>))) = Num 50
   \<and> riskLevel (fst (analyzeEmail (scripted []) constructor
          (Some \<lparr>sender = Some (NonString ''42''), subject = Some (Str ''hello''),
                 snippet = None\<rparr>))) = Medium
   \<and> confidence (fst (analyzeEmail (scripted []) constructor
          (Some \<lparr>sender = Some (NonString ''42''), subject = Some (Str ''hello''),
                 snippet = None\<rparr>))) = Unable_to_analyze
   \<and> reasons (fst (analyzeEmail (scripted []) constructor
          (Some \<lparr>sender = Some (NonString ''42''), subject = Some (Str ''hello''),
                 snippet = None\<rparr>))) = [Analysis_error]"
proof -
  let ?d = "\<lparr>sender = Some (NonString ''42''), subject = Some (Str ''hello''),
             snippet = None\<rparr>"
  have n: "\<forall>s. orDefault (sender ?d) \<noteq> Str s" by (simp add: orDefault_def)
  have h: "fst (analyzeEmail_try (scripted []) constructor (Some ?d)) = Inl TypeError"
    by (simp add: analyzeEmail_try_def scoreEmail_def constructor_def orDefault_def
        fallback_def score_throws [OF n])
  show ?thesis using h analyzeEmail_catches [OF h] by blast
qed

text \<open>An \<open>emailData\<close> that is \<open>null\<close> gives the error result.\<close>

lemma null_email: "fst (analyzeEmail env st None) = getErrorResult"
  by (simp add: analyzeEmail_def analyzeEmail_try_def)

text \<open>
  Without the remote model the returned score is the heuristic score, an integer, and the
  returned risk level is the one of C5 for that score.
\<close>

lemma floor_half: "\<lfloor>real_of_int v + 1 / 2\<rfloor> = v"
  by linarith

lemma heuristic_mode:
  assumes "\<not> modelLoaded st" and "orDefault (sender d) = Str s"
    and "logSubject (orDefault (subject d)) = Inr ()"
    and "getEnhancedFallbackScore d = Inr v"
  shows "score (fst (analyzeEmail env st (Some d))) = Num (of_int v)
         \<and> riskLevel (fst (analyzeEmail env st (Some d)))
           = (if 65 \<le> v then High else if 35 \<le> v then Medium else Low)"
proof -
  obtain rs where rs: "generateReasons (Num (of_int v)) d False = Inr rs"
    using reasons_returns [OF assms(2)] by blast
  show ?thesis
    using assms rs
    by (simp add: analyzeEmail_def analyzeEmail_try_def scoreEmail_def fallback_def
        buildResult_def riskLevelOf_def floor_half split: prod.splits)
qed

end
